theory Spec2Isabelle
  imports Main
begin

section \<open>Python strings and exceptions\<close>

text \<open>
  Strings are \<^typ>\<open>string\<close>. The two string methods the graph driver applies to a relation
  label are \<^verbatim>\<open>rel.replace(" ", "_")\<close> and \<^verbatim>\<open>.upper()\<close>. \<open>str_upper\<close> is
  \<^verbatim>\<open>upper()\<close> on ASCII text: it maps the letters \<^verbatim>\<open>a\<close>..\<^verbatim>\<open>z\<close> and leaves every other
  character as it is. Outside ASCII, Python's \<^verbatim>\<open>upper()\<close> does more (it maps other
  letters too and can change the length), which \<open>str_upper\<close> does not follow; a statement
  that names the upper-cased form of a label is therefore made for the labels of
  \<open>plain_label\<close> below.
\<close>

definition str_replace :: "char \<Rightarrow> char \<Rightarrow> string \<Rightarrow> string" where
  "str_replace old new s = map (\<lambda>c. if c = old then new else c) s"

definition char_upper :: "char \<Rightarrow> char" where
  "char_upper c =
     (case map_of (zip ''abcdefghijklmnopqrstuvwxyz'' ''ABCDEFGHIJKLMNOPQRSTUVWXYZ'') c of
        Some u \<Rightarrow> u
      | None \<Rightarrow> c)"

definition str_upper :: "string \<Rightarrow> string" where
  "str_upper s = map char_upper s"




text \<open>
  The exceptions that occur: \<^verbatim>\<open>redis.exceptions.ResponseError\<close> (the store rejects a
  query), \<^verbatim>\<open>redis.exceptions.ConnectionError\<close>, Python's own \<^verbatim>\<open>IndexError\<close>,
  \<^verbatim>\<open>TypeError\<close> and \<^verbatim>\<open>AttributeError\<close>, and the plain \<^verbatim>\<open>Exception\<close> with
  its message.
\<close>

datatype exn =
    ResponseError string
  | ConnectionError string
  | IndexError
  | TypeError
  | AttributeError
  | Exception string

section \<open>The graph store\<close>

text \<open>
  The store behind \<^verbatim>\<open>self._driver\<close> is a property graph: nodes with an identity of their
  own, a label and the \<^verbatim>\<open>id\<close> property; directed typed edges between node identities;
  and the list of indexes as (label, attribute). Nothing in this type keeps two nodes from
  carrying the same \<^verbatim>\<open>id\<close>, or two edges from being parallel.
\<close>

record gnode =
  nid :: nat
  nlabel :: string
  nprop_id :: string

record gedge =
  esrc :: nat
  erel :: string
  edst :: nat

record graph =
  gnodes :: "gnode list"
  gedges :: "gedge list"
  gnext :: nat
  gindexes :: "(string \<times> string) list"

definition empty_graph :: graph where
  "empty_graph = \<lparr>gnodes = [], gedges = [], gnext = 0, gindexes = []\<rparr>"

text \<open>A path as a result cell exposes \<^verbatim>\<open>nodes()\<close> and \<^verbatim>\<open>edges()\<close>.\<close>

record gpath =
  path_nodes :: "gnode list"
  path_edges :: "gedge list"

datatype cell = Int_cell int | Str_cell string | Path_cell gpath

type_synonym result_set = "cell list list"

text \<open>
  The statements the driver sends. Each constructor stands for one query text of the
  source; its fields are the tokens spliced into the text (node label, edge type, depth,
  limit) followed by the bound parameters.
  \<^item> \<open>Index_count l a\<close>: \<^verbatim>\<open>CALL db.indexes() YIELD label, properties WHERE label='l' AND 'a' IN properties RETURN count(*)\<close>
  \<^item> \<open>Create_index l\<close>: \<^verbatim>\<open>CREATE INDEX FOR (n:`l`) ON (n.id)\<close>
  \<^item> \<open>Rel_map_query l depth limit subjs\<close>: \<^verbatim>\<open>MATCH (n1:l) WHERE n1.id IN $subjs WITH n1 MATCH p=(n1)-[e*1..depth]->(z) RETURN p LIMIT limit\<close>
  \<^item> \<open>Merge_triplet l1 l2 t subj obj\<close>: \<^verbatim>\<open>MERGE (n1:`l1` {id:$subj}) MERGE (n2:`l2` {id:$obj}) MERGE (n1)-[:`t`]->(n2)\<close>
  \<^item> \<open>Delete_rel l t subj obj\<close>: \<^verbatim>\<open>MATCH (n1:`l`)-[r:`t`]->(n2:`l`) WHERE n1.id = $subj AND n2.id = $obj DELETE r\<close>
  \<^item> \<open>Delete_entity l entity\<close>: \<^verbatim>\<open>MATCH (n:`l`) WHERE n.id = $entity DELETE n\<close>
  \<^item> \<open>Count_edges l entity\<close>: \<^verbatim>\<open>MATCH (n1:`l`)--() WHERE n1.id = $entity RETURN count(*)\<close>
\<close>

datatype statement =
    Index_count string string
  | Create_index string
  | Rel_map_query string int int "string list"
  | Merge_triplet string string string string string
  | Delete_rel string string string string
  | Delete_entity string string
  | Count_edges string string

subsection \<open>What the store does with a statement\<close>

definition match_nodes :: "graph \<Rightarrow> string \<Rightarrow> string \<Rightarrow> gnode list" where
  "match_nodes g l i = filter (\<lambda>n. nlabel n = l \<and> nprop_id n = i) (gnodes g)"

text \<open>
  \<^verbatim>\<open>MERGE (n:`l` {id:i})\<close> binds \<open>n\<close> to every node that matches, and creates one node
  when none does.
\<close>

definition merge_node :: "string \<Rightarrow> string \<Rightarrow> graph \<Rightarrow> nat list \<times> graph" where
  "merge_node l i g =
     (if match_nodes g l i = []
      then ([gnext g],
            g\<lparr>gnodes := gnodes g @ [\<lparr>nid = gnext g, nlabel = l, nprop_id = i\<rparr>],
              gnext := Suc (gnext g)\<rparr>)
      else (map nid (match_nodes g l i), g))"

definition has_edge :: "graph \<Rightarrow> nat \<Rightarrow> string \<Rightarrow> nat \<Rightarrow> bool" where
  "has_edge g a t b = list_ex (\<lambda>e. esrc e = a \<and> erel e = t \<and> edst e = b) (gedges g)"

text \<open>\<^verbatim>\<open>MERGE (n1)-[:`t`]->(n2)\<close> for one binding of \<open>n1\<close> and \<open>n2\<close>.\<close>

definition merge_edge :: "string \<Rightarrow> nat \<times> nat \<Rightarrow> graph \<Rightarrow> graph" where
  "merge_edge t p g =
     (if has_edge g (fst p) t (snd p) then g
      else g\<lparr>gedges := gedges g @ [\<lparr>esrc = fst p, erel = t, edst = snd p\<rparr>]\<rparr>)"

definition exec_merge :: "string \<Rightarrow> string \<Rightarrow> string \<Rightarrow> string \<Rightarrow> string \<Rightarrow> graph \<Rightarrow> graph" where
  "exec_merge l1 l2 t subj obj g =
     (let (m1, g1) = merge_node l1 subj g;
          (m2, g2) = merge_node l2 obj g1
      in fold (merge_edge t) (List.product m1 m2) g2)"

text \<open>The identities of the nodes with label \<open>l\<close> and \<^verbatim>\<open>id\<close> \<open>i\<close>.\<close>

definition ids_of :: "graph \<Rightarrow> string \<Rightarrow> string \<Rightarrow> nat list" where
  "ids_of g l i = map nid (match_nodes g l i)"

text \<open>\<^verbatim>\<open>MATCH (n1:`l`)-[r:`t`]->(n2:`l`) WHERE n1.id = subj AND n2.id = obj DELETE r\<close>\<close>

definition exec_delete_rel :: "string \<Rightarrow> string \<Rightarrow> string \<Rightarrow> string \<Rightarrow> graph \<Rightarrow> graph" where
  "exec_delete_rel l t subj obj g =
     g\<lparr>gedges := filter (\<lambda>e. \<not> (erel e = t \<and> esrc e \<in> set (ids_of g l subj)
                                 \<and> edst e \<in> set (ids_of g l obj))) (gedges g)\<rparr>"

text \<open>
  \<^verbatim>\<open>MATCH (n:`l`) WHERE n.id = entity DELETE n\<close>: the matched nodes go, and with them the
  edges that touch them.
\<close>

definition exec_delete_entity :: "string \<Rightarrow> string \<Rightarrow> graph \<Rightarrow> graph" where
  "exec_delete_entity l entity g =
     g\<lparr>gnodes := filter (\<lambda>n. \<not> (nlabel n = l \<and> nprop_id n = entity)) (gnodes g),
       gedges := filter (\<lambda>e. esrc e \<notin> set (ids_of g l entity)
                              \<and> edst e \<notin> set (ids_of g l entity)) (gedges g)\<rparr>"

text \<open>
  \<^verbatim>\<open>MATCH (n1:`l`)--() WHERE n1.id = entity RETURN count(*)\<close>: the number of matches of the
  pattern, an edge in either direction at a matched node.
\<close>

definition incident_count :: "graph \<Rightarrow> string \<Rightarrow> string \<Rightarrow> nat" where
  "incident_count g l entity =
     length (filter (\<lambda>e. esrc e \<in> set (ids_of g l entity) \<or> edst e \<in> set (ids_of g l entity))
               (gedges g))"

text \<open>
  \<^verbatim>\<open>MATCH p=(n1)-[e*1..depth]->(z)\<close>: the directed paths of one to \<open>depth\<close> edges that
  leave the node \<open>v\<close>, no edge (by its position in the store) used twice in a path. A path
  is returned as its list of (edge, node reached).
\<close>

fun extend_paths :: "graph \<Rightarrow> nat \<Rightarrow> nat list \<Rightarrow> nat \<Rightarrow> (gedge \<times> gnode) list list" where
  "extend_paths g 0 used v = []"
| "extend_paths g (Suc d) used v =
     concat (map (\<lambda>i.
        if esrc (gedges g ! i) = v \<and> i \<notin> set used
        then concat (map (\<lambda>z. [(gedges g ! i, z)]
                                 # map ((#) (gedges g ! i, z)) (extend_paths g d (i # used) (nid z)))
                       (filter (\<lambda>z. nid z = edst (gedges g ! i)) (gnodes g)))
        else [])
       [0..<length (gedges g)])"

definition match_paths :: "graph \<Rightarrow> string \<Rightarrow> nat \<Rightarrow> string list \<Rightarrow> gpath list" where
  "match_paths g l depth subjs =
     concat (map (\<lambda>n1. map (\<lambda>p. \<lparr>path_nodes = n1 # map snd p, path_edges = map fst p\<rparr>)
                          (extend_paths g depth [] (nid n1)))
               (filter (\<lambda>n. nlabel n = l \<and> nprop_id n \<in> set subjs) (gnodes g)))"

text \<open>
  The answer of the store: the result set, or the \<^verbatim>\<open>ResponseError\<close> it raises, and the
  graph afterwards. \<^verbatim>\<open>RETURN count(*)\<close> gives one row holding the count, also when the
  count is 0; \<^verbatim>\<open>LIMIT n\<close> keeps the first \<open>n\<close> rows. Creating an index that exists, a
  negative limit and an empty hop range are rejected.
\<close>

fun exec :: "statement \<Rightarrow> graph \<Rightarrow> (exn + result_set) \<times> graph" where
  "exec (Index_count l a) g =
     (Inr [[Int_cell (int (length (filter (\<lambda>ix. ix = (l, a)) (gindexes g))))]], g)"
| "exec (Create_index l) g =
     (if (l, ''id'') \<in> set (gindexes g)
      then (Inl (ResponseError ''Attribute 'id' is already indexed''), g)
      else (Inr [], g\<lparr>gindexes := gindexes g @ [(l, ''id'')]\<rparr>))"
| "exec (Rel_map_query l depth limit subjs) g =
     (if depth < 1 \<or> limit < 0
      then (Inl (ResponseError ''invalid hop range or limit''), g)
      else (Inr (map (\<lambda>p. [Path_cell p]) (take (nat limit) (match_paths g l (nat depth) subjs))), g))"
| "exec (Merge_triplet l1 l2 t subj obj) g = (Inr [], exec_merge l1 l2 t subj obj g)"
| "exec (Delete_rel l t subj obj) g = (Inr [], exec_delete_rel l t subj obj g)"
| "exec (Delete_entity l entity) g = (Inr [], exec_delete_entity l entity g)"
| "exec (Count_edges l entity) g = (Inr [[Int_cell (int (incident_count g l entity))]], g)"

subsection \<open>The connection\<close>

text \<open>
  What a driver call runs against: the store, the statements sent so far, the warnings
  logged, and \<open>faults\<close>, the failures of the connection to come: the next query takes the
  head of the list and raises it when it is \<open>Some e\<close>, without reaching the store. With
  \<open>faults = []\<close> every query reaches the store.
\<close>

record world =
  store :: graph
  sent :: "statement list"
  faults :: "exn option list"
  warnings :: "string list"

definition answer :: "statement \<Rightarrow> world \<Rightarrow> (exn + result_set) \<times> world" where
  "answer q w =
     (case exec q (store w) of (r, g) \<Rightarrow> (r, w\<lparr>store := g, sent := sent w @ [q]\<rparr>))"

text \<open>\<^verbatim>\<open>self._driver.query(q, params=...)\<close>, giving \<^verbatim>\<open>result.result_set\<close>.\<close>

definition driver_query :: "statement \<Rightarrow> world \<Rightarrow> (exn + result_set) \<times> world" where
  "driver_query q w =
     (case faults w of
        [] \<Rightarrow> answer q w
      | None # fs \<Rightarrow> answer q (w\<lparr>faults := fs\<rparr>)
      | Some e # fs \<Rightarrow> (Inl e, w\<lparr>sent := sent w @ [q], faults := fs\<rparr>))"

section \<open>FalkorDBGraphStoreDriver\<close>

text \<open>
  The fields \<^verbatim>\<open>__init__\<close> sets. \<^verbatim>\<open>self._driver\<close> is the connection, kept in the
  \<^typ>\<open>world\<close>; \<^verbatim>\<open>get_query\<close>, a query text fixed by the node label, is left out.
\<close>

record driver =
  node_label :: string
  database :: string
  schema :: string





subsection \<open>\<^verbatim>\<open>get_rel_map\<close>\<close>

text \<open>
  The inner loop \<^verbatim>\<open>for i, edge in enumerate(edges)\<close>: \<^verbatim>\<open>nodes[i + 1]\<close> raises
  \<^verbatim>\<open>IndexError\<close> past the end of \<open>nodes\<close>.
\<close>

fun path_items :: "gedge list \<Rightarrow> gnode list \<Rightarrow> nat \<Rightarrow> exn + string list" where
  "path_items [] nodes i = Inr []"
| "path_items (edge # edges) nodes i =
     (if Suc i < length nodes
      then (case path_items edges nodes (Suc i) of
              Inl e \<Rightarrow> Inl e
            | Inr rest \<Rightarrow> Inr (erel edge # nprop_id (nodes ! Suc i) # rest))
      else Inl IndexError)"

text \<open>
  The outer loop \<^verbatim>\<open>for record in data\<close>, building \<^verbatim>\<open>rel_map\<close>. \<^verbatim>\<open>record[0]\<close> of an
  empty row raises \<^verbatim>\<open>IndexError\<close>, \<^verbatim>\<open>.nodes()\<close> of a cell that is no path
  \<^verbatim>\<open>AttributeError\<close>, \<^verbatim>\<open>nodes[0]\<close> of an empty list \<^verbatim>\<open>IndexError\<close>.
\<close>

fun collect_records ::
  "result_set \<Rightarrow> (string \<rightharpoonup> string list list) \<Rightarrow> exn + (string \<rightharpoonup> string list list)" where
  "collect_records [] rel_map = Inr rel_map"
| "collect_records (record # data) rel_map =
     (case record of
        Path_cell p # _ \<Rightarrow>
          (case path_nodes p of
             [] \<Rightarrow> Inl IndexError
           | n0 # _ \<Rightarrow>
               (case path_items (path_edges p) (path_nodes p) 0 of
                  Inl e \<Rightarrow> Inl e
                | Inr path \<Rightarrow>
                    collect_records data
                      (rel_map(nprop_id n0 \<mapsto>
                         (case rel_map (nprop_id n0) of None \<Rightarrow> [] | Some paths \<Rightarrow> paths) @ [path]))))
      | [] \<Rightarrow> Inl IndexError
      | _ \<Rightarrow> Inl AttributeError)"

text \<open>
  \<^verbatim>\<open>get_rel_map(subjs, depth, limit)\<close>; \<open>subjs\<close> is \<open>None\<close> or a list, \<open>depth\<close> and \<open>limit\<close>
  are Python integers and go into the query text as they come.
\<close>

definition get_rel_map ::
  "driver \<Rightarrow> string list option \<Rightarrow> int \<Rightarrow> int \<Rightarrow> world
     \<Rightarrow> (exn + (string \<rightharpoonup> string list list)) \<times> world" where
  "get_rel_map d subjs depth limit w =
     (case subjs of
        None \<Rightarrow> (Inr Map.empty, w)
      | Some ss \<Rightarrow>
          (if length ss = 0 then (Inr Map.empty, w)
           else (case driver_query (Rel_map_query (node_label d) depth limit ss) w of
                   (Inl e, w1) \<Rightarrow> (Inl e, w1)
                 | (Inr data, w1) \<Rightarrow>
                     (if data = [] then (Inr Map.empty, w1)
                      else (collect_records data Map.empty, w1)))))"

subsection \<open>\<^verbatim>\<open>upsert_triplet\<close>, \<^verbatim>\<open>delete\<close>, \<^verbatim>\<open>upsert_node\<close>\<close>

definition upsert_triplet ::
  "driver \<Rightarrow> string \<Rightarrow> string \<Rightarrow> string \<Rightarrow> world \<Rightarrow> (exn + unit) \<times> world" where
  "upsert_triplet d subj rel obj w =
     (case driver_query
             (Merge_triplet (node_label d) (node_label d)
                (str_upper (str_replace CHR '' '' CHR ''_'' rel)) subj obj) w of
        (Inl e, w1) \<Rightarrow> (Inl e, w1)
      | (Inr _, w1) \<Rightarrow> (Inr (), w1))"

text \<open>The three local functions of \<^verbatim>\<open>delete\<close>.\<close>

definition delete_rel ::
  "driver \<Rightarrow> string \<Rightarrow> string \<Rightarrow> string \<Rightarrow> world \<Rightarrow> (exn + unit) \<times> world" where
  "delete_rel d subj obj rel w =
     (case driver_query
             (Delete_rel (node_label d) (str_upper (str_replace CHR '' '' CHR ''_'' rel)) subj obj) w of
        (Inl e, w1) \<Rightarrow> (Inl e, w1)
      | (Inr _, w1) \<Rightarrow> (Inr (), w1))"

definition delete_entity :: "driver \<Rightarrow> string \<Rightarrow> world \<Rightarrow> (exn + unit) \<times> world" where
  "delete_entity d entity w =
     (case driver_query (Delete_entity (node_label d) entity) w of
        (Inl e, w1) \<Rightarrow> (Inl e, w1)
      | (Inr _, w1) \<Rightarrow> (Inr (), w1))"

text \<open>\<^verbatim>\<open>return bool(result.result_set)\<close>: a list is true when it is not empty.\<close>

definition check_edges :: "driver \<Rightarrow> string \<Rightarrow> world \<Rightarrow> (exn + bool) \<times> world" where
  "check_edges d entity w =
     (case driver_query (Count_edges (node_label d) entity) w of
        (Inl e, w1) \<Rightarrow> (Inl e, w1)
      | (Inr rs, w1) \<Rightarrow> (Inr (rs \<noteq> []), w1))"

text \<open>\<^verbatim>\<open>if not check_edges(entity): delete_entity(entity)\<close>\<close>

definition drop_if_orphan :: "driver \<Rightarrow> string \<Rightarrow> world \<Rightarrow> (exn + unit) \<times> world" where
  "drop_if_orphan d entity w =
     (case check_edges d entity w of
        (Inl e, w1) \<Rightarrow> (Inl e, w1)
      | (Inr has, w1) \<Rightarrow> (if \<not> has then delete_entity d entity w1 else (Inr (), w1)))"

definition delete ::
  "driver \<Rightarrow> string \<Rightarrow> string \<Rightarrow> string \<Rightarrow> world \<Rightarrow> (exn + unit) \<times> world" where
  "delete d subj rel obj w =
     (case delete_rel d subj obj rel w of
        (Inl e, w1) \<Rightarrow> (Inl e, w1)
      | (Inr _, w1) \<Rightarrow>
          (case drop_if_orphan d subj w1 of
             (Inl e, w2) \<Rightarrow> (Inl e, w2)
           | (Inr _, w2) \<Rightarrow> drop_if_orphan d obj w2))"

text \<open>\<^verbatim>\<open>upsert_node(node_id)\<close>, for \<open>node_id\<close> a string: it returns \<open>node_id\<close>.\<close>

definition upsert_node :: "driver \<Rightarrow> string \<Rightarrow> world \<Rightarrow> (exn + string) \<times> world" where
  "upsert_node d node_id w =
     (case upsert_triplet d node_id '''' '''' w of
        (Inl e, w1) \<Rightarrow> (Inl e, w1)
      | (Inr _, w1) \<Rightarrow> (Inr node_id, w1))"

section \<open>BaseAudioTranscriptionDriver\<close>

text \<open>
  What a call of \<^verbatim>\<open>run\<close> can be seen to do, in order: events published on the event bus,
  and calls of \<^verbatim>\<open>try_run\<close> (numbered from 0).
\<close>

datatype event = StartAudioTranscriptionEvent | FinishAudioTranscriptionEvent

datatype action = Published event | Tried nat

definition before_run :: "action list \<Rightarrow> action list" where
  "before_run tr = tr @ [Published StartAudioTranscriptionEvent]"

definition after_run :: "action list \<Rightarrow> action list" where
  "after_run tr = tr @ [Published FinishAudioTranscriptionEvent]"

text \<open>
  Modelled from the spec: \<^verbatim>\<open>ExponentialBackoffMixin.retrying\<close>, the retry policy, which
  is not among the sources. The spec gives it a bounded attempt count, treats any exception
  of \<^verbatim>\<open>try_run\<close> as retryable, runs the attempts strictly one after the other, and lets
  the operation fail with the generic error once the budget is used up. So the policy is
  the list of the attempts it grants, and an attempt that raises ends without leaving the
  loop. The waiting between attempts is not part of the model.
\<close>

definition retrying :: "nat \<Rightarrow> nat list" where
  "retrying max_attempts = [0..<max_attempts]"

text \<open>
  The loop of \<^verbatim>\<open>run\<close> over the attempts. \<^verbatim>\<open>try_run\<close> is abstract in the source: here a
  parameter that gives, for the number of the call, the result or the exception raised.
  The \<^verbatim>\<open>else\<close> branch of the \<^verbatim>\<open>for\<close> is reached when the attempts are used up.
\<close>

fun run_attempts ::
  "(nat \<Rightarrow> 'a \<Rightarrow> 'p \<Rightarrow> exn + 'r) \<Rightarrow> 'a \<Rightarrow> 'p \<Rightarrow> nat list \<Rightarrow> action list
     \<Rightarrow> (exn + 'r) \<times> action list" where
  "run_attempts try_run audio prompts [] tr =
     (Inl (Exception ''Failed to run audio transcription''), tr)"
| "run_attempts try_run audio prompts (attempt # rest) tr =
     (case try_run attempt audio prompts of
        Inr result \<Rightarrow> (Inr result, after_run (before_run tr @ [Tried attempt]))
      | Inl e \<Rightarrow> run_attempts try_run audio prompts rest (before_run tr @ [Tried attempt]))"

definition run ::
  "nat \<Rightarrow> (nat \<Rightarrow> 'a \<Rightarrow> 'p \<Rightarrow> exn + 'r) \<Rightarrow> 'a \<Rightarrow> 'p \<Rightarrow> action list
     \<Rightarrow> (exn + 'r) \<times> action list" where
  "run max_attempts try_run audio prompts tr =
     run_attempts try_run audio prompts (retrying max_attempts) tr"

text \<open>Reading a trace: the events of one kind, and the calls made.\<close>

definition published :: "event \<Rightarrow> action list \<Rightarrow> nat" where
  "published ev tr = length (filter (\<lambda>a. a = Published ev) tr)"

definition attempts_made :: "action list \<Rightarrow> nat" where
  "attempts_made tr = length (filter (\<lambda>a. case a of Tried _ \<Rightarrow> True | _ \<Rightarrow> False) tr)"

text \<open>The actions of the attempts \<open>0, ..., n - 1\<close>: a start event, then the call.\<close>

definition attempt_actions :: "nat \<Rightarrow> action list" where
  "attempt_actions n =
     concat (map (\<lambda>k. [Published StartAudioTranscriptionEvent, Tried k]) [0..<n])"

section \<open>Stores the driver builds\<close>

text \<open>
  A connection on which nothing fails, and the properties of a graph that the counting
  statements need: no two nodes with the same label and \<^verbatim>\<open>id\<close>, and no two equal edges.
\<close>

definition unique_graph :: "graph \<Rightarrow> bool" where
  "unique_graph g \<longleftrightarrow>
     distinct (map (\<lambda>n. (nlabel n, nprop_id n)) (gnodes g)) \<and> distinct (gedges g)"

definition empty_world :: world where
  "empty_world = \<lparr>store = empty_graph, sent = [], faults = [], warnings = []\<rparr>"

text \<open>The edges of type \<open>t\<close> from the node identity \<open>a\<close> to the node identity \<open>b\<close>.\<close>

definition edges_between :: "graph \<Rightarrow> nat \<Rightarrow> string \<Rightarrow> nat \<Rightarrow> gedge list" where
  "edges_between g a t b = filter (\<lambda>e. esrc e = a \<and> erel e = t \<and> edst e = b) (gedges g)"

section \<open>Concrete drivers and stores\<close>

text \<open>The driver with the default node label and database name.\<close>

definition entity_driver :: driver where
  "entity_driver = \<lparr>node_label = ''Entity'', database = ''falkor'', schema = ''''\<rparr>"

text \<open>The store that holds the triplet \<^verbatim>\<open>(a, r, b)\<close> and nothing else.\<close>

definition ab_world :: world where
  "ab_world = snd (upsert_triplet entity_driver ''a'' ''r'' ''b'' empty_world)"


text \<open>
  Two backends for \<^verbatim>\<open>try_run\<close>: one that times out on every call, and one that times
  out twice and then returns a text.
\<close>

definition failing_try_run :: "nat \<Rightarrow> unit \<Rightarrow> string list option \<Rightarrow> exn + string" where
  "failing_try_run k audio prompts = Inl (ConnectionError ''timeout'')"

definition flaky_try_run :: "nat \<Rightarrow> unit \<Rightarrow> string list option \<Rightarrow> exn + string" where
  "flaky_try_run k audio prompts = (if k < 2 then Inl (ConnectionError ''timeout'') else Inr ''text'')"


section \<open>The retry loop\<close>

lemma attempt_actions_Suc:
  "attempt_actions (Suc n) = attempt_actions n @ [Published StartAudioTranscriptionEvent, Tried n]"
  by (simp add: attempt_actions_def)

lemma attempt_actions_0: "attempt_actions 0 = []"
  by (simp add: attempt_actions_def)

lemma published_attempt_actions:
  "published StartAudioTranscriptionEvent (attempt_actions n) = n"
  "published FinishAudioTranscriptionEvent (attempt_actions n) = 0"
  "attempts_made (attempt_actions n) = n"
  by (induction n)
     (simp_all add: attempt_actions_0 attempt_actions_Suc published_def attempts_made_def)

text \<open>The loop over the attempts \<open>i, ..., i + m - 1\<close> when all of them fail, and when the last one succeeds.\<close>

lemma run_attempts_all_fail:
  "(\<forall>k. i \<le> k \<and> k < i + m \<longrightarrow> isl (try_run k audio prompts)) \<Longrightarrow>
   run_attempts try_run audio prompts [i..<i + m] tr =
     (Inl (Exception ''Failed to run audio transcription''),
      tr @ concat (map (\<lambda>k. [Published StartAudioTranscriptionEvent, Tried k]) [i..<i + m]))"
proof (induction m arbitrary: i tr)
  case 0
  then show ?case by simp
next
  case (Suc m)
  have fails: "isl (try_run i audio prompts)" using Suc.prems by simp
  have rest: "\<forall>k. Suc i \<le> k \<and> k < Suc i + m \<longrightarrow> isl (try_run k audio prompts)"
    using Suc.prems by simp
  have unfold: "[i..<i + Suc m] = i # [Suc i..<Suc i + m]"
    by (simp add: upt_conv_Cons)
  from fails obtain e where e: "try_run i audio prompts = Inl e"
    by (cases "try_run i audio prompts") auto
  show ?case
    unfolding unfold using Suc.IH [OF rest] e
    by (simp add: before_run_def)
qed

lemma run_attempts_succeed:
  "(\<forall>j. i \<le> j \<and> j < i + k \<longrightarrow> isl (try_run j audio prompts)) \<Longrightarrow>
   try_run (i + k) audio prompts = Inr r \<Longrightarrow>
   run_attempts try_run audio prompts ([i..<i + k] @ (i + k) # rest) tr =
     (Inr r,
      tr @ concat (map (\<lambda>k. [Published StartAudioTranscriptionEvent, Tried k]) [i..<i + Suc k])
         @ [Published FinishAudioTranscriptionEvent])"
proof (induction k arbitrary: i tr)
  case 0
  then show ?case by (simp add: before_run_def after_run_def)
next
  case (Suc k)
  have fails: "isl (try_run i audio prompts)" using Suc.prems by simp
  have rest: "\<forall>j. Suc i \<le> j \<and> j < Suc i + k \<longrightarrow> isl (try_run j audio prompts)"
    using Suc.prems by simp
  have ok: "try_run (Suc i + k) audio prompts = Inr r" using Suc.prems by simp
  have unfold: "[i..<i + Suc k] = i # [Suc i..<Suc i + k]" "[i..<i + Suc (Suc k)] = i # [Suc i..<Suc i + Suc k]"
    by (simp_all add: upt_conv_Cons)
  from fails obtain e where e: "try_run i audio prompts = Inl e"
    by (cases "try_run i audio prompts") auto
  show ?case
    unfolding unfold using Suc.IH [OF rest ok] e
    by (simp add: before_run_def)
qed

section \<open>Driver calls on a connection that does not fail\<close>

lemma driver_query_healthy:
  "faults w = [] \<Longrightarrow>
   driver_query q w = (fst (exec q (store w)), w\<lparr>store := snd (exec q (store w)), sent := sent w @ [q]\<rparr>)"
  by (simp add: driver_query_def answer_def split: prod.splits)

lemma upsert_triplet_healthy:
  "faults w = [] \<Longrightarrow>
   upsert_triplet d subj rel obj w =
     (Inr (), w\<lparr>store := exec_merge (node_label d) (node_label d)
                           (str_upper (str_replace CHR '' '' CHR ''_'' rel)) subj obj (store w),
               sent := sent w @ [Merge_triplet (node_label d) (node_label d)
                           (str_upper (str_replace CHR '' '' CHR ''_'' rel)) subj obj]\<rparr>)"
  by (simp add: upsert_triplet_def driver_query_healthy)

lemma check_edges_healthy:
  "faults w = [] \<Longrightarrow>
   check_edges d entity w = (Inr True, w\<lparr>sent := sent w @ [Count_edges (node_label d) entity]\<rparr>)"
  by (simp add: check_edges_def driver_query_healthy)

lemma drop_if_orphan_healthy:
  "faults w = [] \<Longrightarrow>
   drop_if_orphan d entity w = (Inr (), w\<lparr>sent := sent w @ [Count_edges (node_label d) entity]\<rparr>)"
  by (simp add: drop_if_orphan_def check_edges_healthy)

lemma delete_healthy:
  "faults w = [] \<Longrightarrow>
   delete d subj rel obj w =
     (Inr (), w\<lparr>store := exec_delete_rel (node_label d)
                           (str_upper (str_replace CHR '' '' CHR ''_'' rel)) subj obj (store w),
               sent := sent w @ [Delete_rel (node_label d)
                           (str_upper (str_replace CHR '' '' CHR ''_'' rel)) subj obj,
                           Count_edges (node_label d) subj, Count_edges (node_label d) obj]\<rparr>)"
  by (simp add: delete_def delete_rel_def driver_query_healthy drop_if_orphan_healthy)

subsection \<open>What a merge leaves unchanged, and what it adds\<close>

lemma match_nodes_cong: "gnodes g' = gnodes g \<Longrightarrow> match_nodes g' l i = match_nodes g l i"
  by (simp add: match_nodes_def)


lemma merge_node_result:
  "merge_node l i g = (m, g') \<Longrightarrow>
     m = ids_of g' l i \<and> match_nodes g' l i \<noteq> [] \<and> gedges g' = gedges g \<and> gindexes g' = gindexes g"
  by (auto simp: merge_node_def ids_of_def match_nodes_def split: if_splits)

lemma merge_node_keeps_matches:
  "match_nodes g l' i' \<noteq> [] \<Longrightarrow> merge_node l i g = (m, g') \<Longrightarrow>
     match_nodes g' l' i' = match_nodes g l' i'"
  by (auto simp: merge_node_def match_nodes_def split: if_splits)

lemma merge_edge_frame [simp]:
  "gnodes (merge_edge t p g) = gnodes g"
  "gnext (merge_edge t p g) = gnext g"
  "gindexes (merge_edge t p g) = gindexes g"
  by (simp_all add: merge_edge_def)

lemma fold_merge_edge_frame [simp]:
  "gnodes (fold (merge_edge t) ps g) = gnodes g"
  "gnext (fold (merge_edge t) ps g) = gnext g"
  "gindexes (fold (merge_edge t) ps g) = gindexes g"
  by (induction ps arbitrary: g) simp_all

lemma has_edge_merge_edge:
  "has_edge g a t b \<Longrightarrow> has_edge (merge_edge t' p g) a t b"
  by (auto simp: merge_edge_def has_edge_def list_ex_iff)

lemma has_edge_fold:
  "has_edge g a t b \<Longrightarrow> has_edge (fold (merge_edge t') ps g) a t b"
  by (induction ps arbitrary: g) (simp_all add: has_edge_merge_edge)

lemma has_edge_merge_edge_self: "has_edge (merge_edge t p g) (fst p) t (snd p)"
  by (auto simp: merge_edge_def has_edge_def list_ex_iff)

lemma fold_merge_edge_has:
  "p \<in> set ps \<Longrightarrow> has_edge (fold (merge_edge t) ps g) (fst p) t (snd p)"
proof (induction ps arbitrary: g)
  case Nil
  then show ?case by simp
next
  case (Cons q ps)
  show ?case
  proof (cases "p = q")
    case True
    then show ?thesis by (simp add: has_edge_fold has_edge_merge_edge_self)
  next
    case False
    with Cons show ?thesis by simp
  qed
qed



section \<open>Nodes and edges after a merge\<close>


lemma merge_edge_edges:
  "set (gedges (merge_edge t p h)) \<subseteq> insert \<lparr>esrc = fst p, erel = t, edst = snd p\<rparr> (set (gedges h))"
  by (auto simp: merge_edge_def)

lemma fold_merge_edge_mono:
  "set (gedges h) \<subseteq> set (gedges (fold (merge_edge t) ps h))"
proof (induction ps arbitrary: h)
  case Nil
  then show ?case by simp
next
  case (Cons q ps)
  have "set (gedges h) \<subseteq> set (gedges (merge_edge t q h))"
    by (auto simp: merge_edge_def)
  also have "\<dots> \<subseteq> set (gedges (fold (merge_edge t) ps (merge_edge t q h)))"
    by (rule Cons.IH)
  finally show ?case by simp
qed

lemma fold_merge_edge_edges:
  "set (gedges (fold (merge_edge t) ps h)) \<subseteq>
     set (gedges h) \<union> (\<lambda>p. \<lparr>esrc = fst p, erel = t, edst = snd p\<rparr>) ` set ps"
proof (induction ps arbitrary: h)
  case Nil
  then show ?case by simp
next
  case (Cons q ps)
  have "set (gedges (fold (merge_edge t) ps (merge_edge t q h))) \<subseteq>
     set (gedges (merge_edge t q h)) \<union> (\<lambda>p. \<lparr>esrc = fst p, erel = t, edst = snd p\<rparr>) ` set ps"
    by (rule Cons.IH)
  with merge_edge_edges [of t q h] show ?case by auto
qed



lemma edges_between_eq:
  "edges_between g a t b = filter (\<lambda>e. e = \<lparr>esrc = a, erel = t, edst = b\<rparr>) (gedges g)"
  unfolding edges_between_def by (rule filter_cong) auto

lemma gedge_eq_iff:
  "(e = \<lparr>esrc = a, erel = t, edst = b\<rparr>) = (esrc e = a \<and> erel e = t \<and> edst e = b)"
  by (cases e) auto

lemma has_edge_iff: "has_edge g a t b \<longleftrightarrow> \<lparr>esrc = a, erel = t, edst = b\<rparr> \<in> set (gedges g)"
  unfolding has_edge_def list_ex_iff by (auto simp: gedge_eq_iff [symmetric])


lemma unique_merge_node:
  "unique_graph g \<Longrightarrow> merge_node l i g = (m, g') \<Longrightarrow> unique_graph g'"
  by (auto simp: merge_node_def unique_graph_def match_nodes_def filter_empty_conv split: if_splits)

lemma unique_merge_edge: "unique_graph g \<Longrightarrow> unique_graph (merge_edge t p g)"
  by (auto simp: merge_edge_def unique_graph_def has_edge_iff)

lemma unique_fold_merge_edge: "unique_graph g \<Longrightarrow> unique_graph (fold (merge_edge t) ps g)"
  by (induction ps arbitrary: g) (simp_all add: unique_merge_edge)

lemma unique_exec_merge:
  "unique_graph g \<Longrightarrow> unique_graph (exec_merge l1 l2 t subj obj g)"
  by (auto simp: exec_merge_def split: prod.splits
           intro!: unique_fold_merge_edge dest: unique_merge_node)

text \<open>After the merge: matches for both ends, and an edge for every pair of them.\<close>

lemma exec_merge_result:
  assumes "g3 = exec_merge l1 l2 t subj obj g"
  shows "match_nodes g3 l1 subj \<noteq> []" "match_nodes g3 l2 obj \<noteq> []"
    "\<forall>a\<in>set (ids_of g3 l1 subj). \<forall>b\<in>set (ids_of g3 l2 obj). has_edge g3 a t b"
    "set (gedges g3) \<subseteq> set (gedges g) \<union>
        {\<lparr>esrc = a, erel = t, edst = b\<rparr> | a b. a \<in> set (ids_of g3 l1 subj) \<and> b \<in> set (ids_of g3 l2 obj)}"
    "set (gedges g) \<subseteq> set (gedges g3)"
    "gindexes g3 = gindexes g"
proof -
  obtain m1 g1 where s1: "merge_node l1 subj g = (m1, g1)" by (cases "merge_node l1 subj g")
  obtain m2 g2 where s2: "merge_node l2 obj g1 = (m2, g2)" by (cases "merge_node l2 obj g1")
  have res: "g3 = fold (merge_edge t) (List.product m1 m2) g2"
    by (simp add: assms exec_merge_def s1 s2)
  have n3: "gnodes g3 = gnodes g2" by (simp add: res)
  from merge_node_result [OF s1] have m1: "match_nodes g1 l1 subj \<noteq> []" "m1 = ids_of g1 l1 subj"
    "gedges g1 = gedges g" "gindexes g1 = gindexes g" by simp_all
  from merge_node_result [OF s2] have m2: "match_nodes g2 l2 obj \<noteq> []" "m2 = ids_of g2 l2 obj"
    "gedges g2 = gedges g1" "gindexes g2 = gindexes g1" by simp_all
  have keep: "match_nodes g2 l1 subj = match_nodes g1 l1 subj"
    by (rule merge_node_keeps_matches [OF m1(1) s2])
  have i1: "ids_of g3 l1 subj = m1" using keep m1(2) match_nodes_cong [OF n3] by (simp add: ids_of_def)
  have i2: "ids_of g3 l2 obj = m2" using m2(2) match_nodes_cong [OF n3] by (simp add: ids_of_def)
  show "match_nodes g3 l1 subj \<noteq> []" using keep m1(1) match_nodes_cong [OF n3] by simp
  show "match_nodes g3 l2 obj \<noteq> []" using m2(1) match_nodes_cong [OF n3] by simp
  have "has_edge g3 (fst p) t (snd p)" if "p \<in> set (List.product m1 m2)" for p
    unfolding res using that by (rule fold_merge_edge_has)
  then show "\<forall>a\<in>set (ids_of g3 l1 subj). \<forall>b\<in>set (ids_of g3 l2 obj). has_edge g3 a t b"
    using i1 i2 by fastforce
  show "set (gedges g3) \<subseteq> set (gedges g) \<union>
        {\<lparr>esrc = a, erel = t, edst = b\<rparr> | a b. a \<in> set (ids_of g3 l1 subj) \<and> b \<in> set (ids_of g3 l2 obj)}"
    using fold_merge_edge_edges [of t "List.product m1 m2" g2] m1(3) m2(3) i1 i2 res by auto
  show "set (gedges g) \<subseteq> set (gedges g3)"
    unfolding res using fold_merge_edge_mono [of g2 t "List.product m1 m2"] m1(3) m2(3) by simp
  show "gindexes g3 = gindexes g" by (simp add: res m1 m2)
qed

section \<open>Evaluation on concrete stores\<close>

lemma sent_driver_query: "sent (snd (driver_query q w)) = sent w @ [q]"
  by (simp add: driver_query_def answer_def split: list.splits option.splits prod.splits)

lemmas eval_defs =
  upsert_triplet_def delete_def delete_rel_def drop_if_orphan_def check_edges_def delete_entity_def
  upsert_node_def get_rel_map_def
  driver_query_def answer_def empty_world_def empty_graph_def entity_driver_def
  exec_merge_def merge_node_def merge_edge_def has_edge_def match_nodes_def ids_of_def
  exec_delete_rel_def exec_delete_entity_def incident_count_def
  str_upper_def str_replace_def char_upper_def


lemma ab_world_eq:
  "ab_world = \<lparr>store = \<lparr>gnodes = [\<lparr>nid = 0, nlabel = ''Entity'', nprop_id = ''a''\<rparr>,
                                  \<lparr>nid = 1, nlabel = ''Entity'', nprop_id = ''b''\<rparr>],
                        gedges = [\<lparr>esrc = 0, erel = ''R'', edst = 1\<rparr>], gnext = 2, gindexes = []\<rparr>,
              sent = [Merge_triplet ''Entity'' ''Entity'' ''R'' ''a'' ''b''],
              faults = [], warnings = []\<rparr>"
  by (simp add: ab_world_def eval_defs)

section \<open>The uniqueness of nodes and edges is kept\<close>

lemma unique_empty_world: "unique_graph (store empty_world)"
  by (simp add: unique_graph_def empty_world_def empty_graph_def)

lemma upsert_triplet_keeps_unique:
  "faults w = [] \<Longrightarrow> unique_graph (store w) \<Longrightarrow>
   unique_graph (store (snd (upsert_triplet d a r b w)))"
  by (simp add: upsert_triplet_healthy unique_exec_merge)

lemma delete_keeps_unique:
  "faults w = [] \<Longrightarrow> unique_graph (store w) \<Longrightarrow>
   unique_graph (store (snd (delete d a r b w)))"
  by (simp add: delete_healthy exec_delete_rel_def unique_graph_def)

section \<open>\<^verbatim>\<open>delete\<close>\<close>

text \<open>
  When no query fails, \<^verbatim>\<open>delete\<close> sends the edge deletion and the two counting queries and
  never the node deletion: the result set of \<^verbatim>\<open>RETURN count(*)\<close> holds one row whatever
  the count, so \<^verbatim>\<open>bool(result.result_set)\<close> is true. Every node stays.
\<close>

lemma delete_keeps_all_nodes:
  "faults w = [] \<Longrightarrow> gnodes (store (snd (delete d subj rel obj w))) = gnodes (store w)"
  by (simp add: delete_healthy exec_delete_rel_def)

text \<open>
  Claim C1. \<^verbatim>\<open>delete(subj, rel, obj)\<close> removes the typed edge between \<open>subj\<close> and \<open>obj\<close>,
  then removes \<open>subj\<close> exactly when no edge touches it any more, and likewise \<open>obj\<close>; from
  the store that holds only the triplet \<^verbatim>\<open>(a, r, b)\<close>, \<^verbatim>\<open>delete(a, r, b)\<close> leaves neither
  \<open>a\<close> nor \<open>b\<close>.

  The code does not do this. On that store the edge goes, and both nodes are still there:
  \<^verbatim>\<open>check_edges\<close> tests the result set of the counting query for emptiness, where
  \<^verbatim>\<open>index_exists\<close> reads the count itself (\<^verbatim>\<open>result_set[0][0] > 0\<close>), so it answers true
  for a node without edges and \<^verbatim>\<open>delete_entity\<close> is never called.
\<close>

theorem delete_keeps_orphan_nodes:
  "delete entity_driver ''a'' ''r'' ''b'' ab_world =
     (Inr (),
      ab_world\<lparr>store := (store ab_world)\<lparr>gedges := []\<rparr>,
               sent := sent ab_world @ [Delete_rel ''Entity'' ''R'' ''a'' ''b'',
                                        Count_edges ''Entity'' ''a'', Count_edges ''Entity'' ''b'']\<rparr>)
   \<and> gnodes (store (snd (delete entity_driver ''a'' ''r'' ''b'' ab_world))) =
       [\<lparr>nid = 0, nlabel = ''Entity'', nprop_id = ''a''\<rparr>,
        \<lparr>nid = 1, nlabel = ''Entity'', nprop_id = ''b''\<rparr>]"
  by (simp add: ab_world_eq) (simp add: eval_defs)

section \<open>\<^verbatim>\<open>run\<close>\<close>

text \<open>
  Claim C2. With a retry policy of \<open>n\<close> attempts and a \<^verbatim>\<open>try_run\<close> that raises on every
  attempt, \<^verbatim>\<open>run\<close> raises the generic \<^verbatim>\<open>Exception("Failed to run audio transcription")\<close>,
  whatever \<^verbatim>\<open>try_run\<close> raised, after exactly \<open>n\<close> attempts; \<open>n\<close> start events were
  published, one before each attempt, and no finish event.
\<close>

theorem run_raises_after_all_attempts:
  assumes "\<forall>k<n. isl (try_run k audio prompts)"
  shows "run n try_run audio prompts tr =
           (Inl (Exception ''Failed to run audio transcription''), tr @ attempt_actions n)
         \<and> attempts_made (attempt_actions n) = n
         \<and> published StartAudioTranscriptionEvent (attempt_actions n) = n
         \<and> published FinishAudioTranscriptionEvent (attempt_actions n) = 0"
  using run_attempts_all_fail [of 0 n try_run audio prompts tr] assms
  by (simp add: run_def retrying_def attempt_actions_def [symmetric] published_attempt_actions)

text \<open>Three attempts, each ending in a timeout.\<close>

theorem run_raises_after_all_attempts_witness:
  "isl (failing_try_run 0 () None) \<and> isl (failing_try_run 1 () None)
   \<and> isl (failing_try_run 2 () None)
   \<and> run 3 failing_try_run () None [] =
       (Inl (Exception ''Failed to run audio transcription''),
        [Published StartAudioTranscriptionEvent, Tried 0,
         Published StartAudioTranscriptionEvent, Tried 1,
         Published StartAudioTranscriptionEvent, Tried 2])
   \<and> attempts_made (attempt_actions 3) = 3
   \<and> published StartAudioTranscriptionEvent (attempt_actions 3) = 3
   \<and> published FinishAudioTranscriptionEvent (attempt_actions 3) = 0"
  using run_raises_after_all_attempts [of 3 failing_try_run "()" None "[]"]
  by (simp add: failing_try_run_def attempt_actions_def upt_rec)

text \<open>
  Claim C3. When \<^verbatim>\<open>try_run\<close> raises on the attempts \<open>0, ..., k - 1\<close> and returns on attempt
  \<open>k\<close>, within the budget \<open>n\<close>, \<^verbatim>\<open>run\<close> returns that result. What it did, in order: for
  each of the \<open>k + 1\<close> attempts a start event and then the call, and one finish event at the
  end, after the call that returned; none after a call that raised.
\<close>

theorem run_returns_first_success:
  assumes "k < n"
    and "\<forall>j<k. isl (try_run j audio prompts)"
    and "try_run k audio prompts = Inr result"
  shows "run n try_run audio prompts tr =
           (Inr result,
            tr @ attempt_actions (Suc k) @ [Published FinishAudioTranscriptionEvent])
         \<and> attempts_made (attempt_actions (Suc k) @ [Published FinishAudioTranscriptionEvent]) = Suc k
         \<and> published StartAudioTranscriptionEvent
               (attempt_actions (Suc k) @ [Published FinishAudioTranscriptionEvent]) = Suc k
         \<and> published FinishAudioTranscriptionEvent
               (attempt_actions (Suc k) @ [Published FinishAudioTranscriptionEvent]) = 1"
proof -
  have "[0..<n] = [0..<k] @ [k..<n]"
    using assms(1) upt_add_eq_append [of 0 k "n - k"] by simp
  also have "[k..<n] = k # [Suc k..<n]"
    using assms(1) by (rule upt_conv_Cons)
  finally have split: "[0..<n] = [0..<0 + k] @ (0 + k) # [Suc k..<n]"
    by simp
  have "run_attempts try_run audio prompts ([0..<0 + k] @ (0 + k) # [Suc k..<n]) tr =
          (Inr result, tr @ attempt_actions (Suc k) @ [Published FinishAudioTranscriptionEvent])"
    using assms(2,3) run_attempts_succeed [of 0 k try_run audio prompts result "[Suc k..<n]" tr]
    by (simp add: attempt_actions_def)
  then have "run n try_run audio prompts tr =
          (Inr result, tr @ attempt_actions (Suc k) @ [Published FinishAudioTranscriptionEvent])"
    unfolding run_def retrying_def using split by simp
  moreover have "attempts_made (xs @ [Published FinishAudioTranscriptionEvent]) = attempts_made xs"
    "published StartAudioTranscriptionEvent (xs @ [Published FinishAudioTranscriptionEvent])
       = published StartAudioTranscriptionEvent xs"
    "published FinishAudioTranscriptionEvent (xs @ [Published FinishAudioTranscriptionEvent])
       = Suc (published FinishAudioTranscriptionEvent xs)" for xs
    by (simp_all add: attempts_made_def published_def)
  ultimately show ?thesis
    by (simp add: published_attempt_actions)
qed

text \<open>Two failures, then the text, with a budget of three attempts.\<close>

theorem run_returns_first_success_witness:
  "(2::nat) < 3
   \<and> isl (flaky_try_run 0 () None) \<and> isl (flaky_try_run 1 () None)
   \<and> flaky_try_run 2 () None = Inr ''text''
   \<and> run 3 flaky_try_run () None [] =
       (Inr ''text'',
        [Published StartAudioTranscriptionEvent, Tried 0,
         Published StartAudioTranscriptionEvent, Tried 1,
         Published StartAudioTranscriptionEvent, Tried 2,
         Published FinishAudioTranscriptionEvent])"
  using run_returns_first_success [of 2 3 flaky_try_run "()" None "''text''" "[]"]
  by (simp add: flaky_try_run_def attempt_actions_def upt_rec)

section \<open>\<^verbatim>\<open>get_rel_map\<close>\<close>

text \<open>
  Claim C4, as stated: \<^verbatim>\<open>get_rel_map\<close> validates \<open>depth\<close> and \<open>limit\<close> as positive integers
  and raises on a limit of 0. It does not: on the store with the triplet \<^verbatim>\<open>(a, r, b)\<close>,
  \<^verbatim>\<open>get_rel_map(["a"], 2, 0)\<close> sends the query with \<^verbatim>\<open>LIMIT 0\<close> and returns the empty
  mapping.
\<close>

theorem get_rel_map_limit_zero_accepted:
  "get_rel_map entity_driver (Some [''a'']) 2 0 ab_world =
     (Inr Map.empty, ab_world\<lparr>sent := sent ab_world @ [Rel_map_query ''Entity'' 2 0 [''a'']]\<rparr>)"
  by (simp add: ab_world_eq) (simp add: eval_defs)

text \<open>
  Claim C4, amended. \<^verbatim>\<open>get_rel_map\<close> checks neither \<open>depth\<close> nor \<open>limit\<close>: for a list of
  subjects that is not empty it sends the traversal query with the caller's \<open>depth\<close> and
  \<open>limit\<close> as they are, whatever their value; and with a limit of 0 (and a depth of at least
  1, on a connection that does not fail) it returns the empty mapping and raises nothing.
\<close>

theorem get_rel_map_passes_bounds:
  assumes "subjs \<noteq> []"
  shows "sent (snd (get_rel_map d (Some subjs) depth limit w)) =
           sent w @ [Rel_map_query (node_label d) depth limit subjs]
         \<and> (faults w = [] \<and> 1 \<le> depth \<longrightarrow>
              get_rel_map d (Some subjs) depth 0 w =
                (Inr Map.empty, w\<lparr>sent := sent w @ [Rel_map_query (node_label d) depth 0 subjs]\<rparr>))"
proof -
  have "sent (snd (get_rel_map d (Some subjs) depth limit w)) =
          sent (snd (driver_query (Rel_map_query (node_label d) depth limit subjs) w))"
    using assms by (simp add: get_rel_map_def split: prod.splits sum.splits)
  moreover have "get_rel_map d (Some subjs) depth 0 w =
                (Inr Map.empty, w\<lparr>sent := sent w @ [Rel_map_query (node_label d) depth 0 subjs]\<rparr>)"
    if "faults w = []" "1 \<le> depth"
    using that assms by (simp add: get_rel_map_def driver_query_healthy)
  ultimately show ?thesis by (simp add: sent_driver_query)
qed

text \<open>A negative limit is sent as it is; a limit of 0 gives the empty mapping.\<close>

theorem get_rel_map_passes_bounds_witness:
  "[''a''] \<noteq> [] \<and> faults ab_world = [] \<and> (1::int) \<le> 2
   \<and> sent (snd (get_rel_map entity_driver (Some [''a'']) 2 (- 5) ab_world)) =
       sent ab_world @ [Rel_map_query ''Entity'' 2 (- 5) [''a'']]
   \<and> get_rel_map entity_driver (Some [''a'']) 2 0 ab_world =
       (Inr Map.empty, ab_world\<lparr>sent := sent ab_world @ [Rel_map_query ''Entity'' 2 0 [''a'']]\<rparr>)"
  using get_rel_map_passes_bounds [of "[''a'']" entity_driver 2 "- 5" ab_world]
  by (simp add: ab_world_eq entity_driver_def)

text \<open>
  Claim C9. For every \<open>depth\<close> and \<open>limit\<close>, \<^verbatim>\<open>get_rel_map\<close> with \<open>subjs\<close> \<^verbatim>\<open>None\<close> or the
  empty list returns the empty mapping, and the connection is as it was: the store is the
  same and no statement was sent.
\<close>

theorem get_rel_map_without_subjects:
  "get_rel_map d None depth limit w = (Inr Map.empty, w)
   \<and> get_rel_map d (Some []) depth limit w = (Inr Map.empty, w)"
  by (simp add: get_rel_map_def)

theorem get_rel_map_without_subjects_witness:
  "get_rel_map entity_driver None 2 30 ab_world = (Inr Map.empty, ab_world)
   \<and> get_rel_map entity_driver (Some []) 2 30 ab_world = (Inr Map.empty, ab_world)"
  by (rule get_rel_map_without_subjects)

section \<open>\<^verbatim>\<open>__init__\<close>\<close>




section \<open>\<^verbatim>\<open>upsert_node\<close> and \<^verbatim>\<open>upsert_triplet\<close>\<close>

text \<open>
  Claim C6, as stated: \<^verbatim>\<open>upsert_node(node_id)\<close> makes a self-referential triplet, the
  subject and the object of the edge being the node \<open>node_id\<close>. On the empty store
  \<^verbatim>\<open>upsert_node("a")\<close> makes two nodes, \<^verbatim>\<open>a\<close> and the node whose \<^verbatim>\<open>id\<close> is the empty
  string, and the edge runs from the first to the second.
\<close>

theorem upsert_node_not_self_referential:
  "gnodes (store (snd (upsert_node entity_driver ''a'' empty_world))) =
     [\<lparr>nid = 0, nlabel = ''Entity'', nprop_id = ''a''\<rparr>,
      \<lparr>nid = 1, nlabel = ''Entity'', nprop_id = ''''\<rparr>]
   \<and> gedges (store (snd (upsert_node entity_driver ''a'' empty_world))) =
       [\<lparr>esrc = 0, erel = '''', edst = 1\<rparr>]"
  by (simp add: eval_defs)

text \<open>
  Claim C6, amended. For every \<open>node_id\<close>, \<^verbatim>\<open>upsert_node(node_id)\<close> is
  \<^verbatim>\<open>upsert_triplet(node_id, "", "")\<close> and returns \<open>node_id\<close>: a triplet with the empty
  relation and the empty string as object. Afterwards an edge of the empty type runs from a
  node with \<^verbatim>\<open>id\<close> \<open>node_id\<close> to a node whose \<^verbatim>\<open>id\<close> is the empty string, every edge
  added is such an edge, and the two ends are different nodes unless \<open>node_id\<close> is the
  empty string itself.
\<close>

theorem upsert_node_is_triplet_to_empty_id:
  assumes "faults w = []"
  shows "\<exists>w1. upsert_node d node_id w = (Inr node_id, w1)
           \<and> upsert_triplet d node_id '''' '''' w = (Inr (), w1)
           \<and> (\<exists>n1\<in>set (match_nodes (store w1) (node_label d) node_id).
               \<exists>n2\<in>set (match_nodes (store w1) (node_label d) '''').
                 edges_between (store w1) (nid n1) '''' (nid n2) \<noteq> [])
           \<and> (\<forall>e\<in>set (gedges (store w1)) - set (gedges (store w)).
                 erel e = '''' \<and> esrc e \<in> set (ids_of (store w1) (node_label d) node_id)
                 \<and> edst e \<in> set (ids_of (store w1) (node_label d) ''''))
           \<and> (node_id \<noteq> '''' \<longrightarrow>
                set (match_nodes (store w1) (node_label d) node_id)
                  \<inter> set (match_nodes (store w1) (node_label d) '''') = {})"
proof -
  define g3 where "g3 = exec_merge (node_label d) (node_label d) '''' node_id '''' (store w)"
  note r = exec_merge_result [OF g3_def]
  have t: "str_upper (str_replace CHR '' '' CHR ''_'' '''') = ''''"
    by (simp add: str_upper_def str_replace_def)
  obtain n1 where n1: "n1 \<in> set (match_nodes g3 (node_label d) node_id)"
    using r(1) by (cases "match_nodes g3 (node_label d) node_id") auto
  obtain n2 where n2: "n2 \<in> set (match_nodes g3 (node_label d) '''')"
    using r(2) by (cases "match_nodes g3 (node_label d) ''''") auto
  have "has_edge g3 (nid n1) '''' (nid n2)"
    using r(3) n1 n2 by (simp add: ids_of_def)
  then have e: "edges_between g3 (nid n1) '''' (nid n2) \<noteq> []"
    by (auto simp: edges_between_eq has_edge_iff filter_empty_conv)
  have new: "\<forall>e\<in>set (gedges g3) - set (gedges (store w)).
                 erel e = '''' \<and> esrc e \<in> set (ids_of g3 (node_label d) node_id)
                 \<and> edst e \<in> set (ids_of g3 (node_label d) '''')"
    using r(4) by auto
  have apart: "node_id \<noteq> '''' \<longrightarrow>
      set (match_nodes g3 (node_label d) node_id) \<inter> set (match_nodes g3 (node_label d) '''') = {}"
    by (auto simp: match_nodes_def)
  have up: "upsert_triplet d node_id '''' '''' w =
              (Inr (), w\<lparr>store := g3,
                         sent := sent w @ [Merge_triplet (node_label d) (node_label d) '''' node_id '''']\<rparr>)"
    using assms by (simp add: upsert_triplet_healthy t g3_def)
  show ?thesis
    unfolding upsert_node_def up using n1 n2 e new apart by auto
qed

theorem upsert_node_is_triplet_to_empty_id_witness:
  "faults empty_world = [] \<and> ''a'' \<noteq> ''''
   \<and> (\<exists>w1. upsert_node entity_driver ''a'' empty_world = (Inr ''a'', w1)
           \<and> upsert_triplet entity_driver ''a'' '''' '''' empty_world = (Inr (), w1)
           \<and> (\<exists>n1\<in>set (match_nodes (store w1) ''Entity'' ''a'').
               \<exists>n2\<in>set (match_nodes (store w1) ''Entity'' '''').
                 edges_between (store w1) (nid n1) '''' (nid n2) \<noteq> [])
           \<and> set (match_nodes (store w1) ''Entity'' ''a'')
                  \<inter> set (match_nodes (store w1) ''Entity'' '''') = {})"
  using upsert_node_is_triplet_to_empty_id [of empty_world entity_driver "''a''"]
  by (auto simp: empty_world_def entity_driver_def)






section \<open>\<^verbatim>\<open>delete\<close> after \<^verbatim>\<open>upsert_triplet\<close>\<close>

text \<open>
  Claim C10. \<^verbatim>\<open>delete\<close> brings the relation label into the same form as
  \<^verbatim>\<open>upsert_triplet\<close> does before it matches the edge: for every \<open>r\<close>, the edge type in the
  statement \<^verbatim>\<open>delete(a, r, b)\<close> sends is the edge type in the statement
  \<^verbatim>\<open>upsert_triplet(a, r, b)\<close> sent, spaces and lower-case letters included, and of the
  edges that the upsert added none is left after the delete.
\<close>

theorem delete_normalizes_like_upsert:
  assumes "faults w = []"
  shows "\<exists>w1 w2 t. upsert_triplet d a r b w = (Inr (), w1)
           \<and> delete d a r b w1 = (Inr (), w2)
           \<and> t = str_upper (str_replace CHR '' '' CHR ''_'' r)
           \<and> sent w1 = sent w @ [Merge_triplet (node_label d) (node_label d) t a b]
           \<and> sent w2 = sent w1 @ [Delete_rel (node_label d) t a b,
                                   Count_edges (node_label d) a, Count_edges (node_label d) b]
           \<and> set (gedges (store w2)) \<subseteq> set (gedges (store w))"
proof -
  define t where "t = str_upper (str_replace CHR '' '' CHR ''_'' r)"
  define g3 where "g3 = exec_merge (node_label d) (node_label d) t a b (store w)"
  note res = exec_merge_result [OF g3_def]
  have "set (gedges (exec_delete_rel (node_label d) t a b g3)) \<subseteq> set (gedges (store w))"
    using res(4) by (auto simp: exec_delete_rel_def)
  then show ?thesis
    using assms
    by (simp add: upsert_triplet_healthy delete_healthy t_def [symmetric] g3_def [symmetric])
qed

text \<open>The label \<^verbatim>\<open>has parent\<close>: both statements name the type \<^verbatim>\<open>HAS_PARENT\<close>.\<close>

theorem delete_normalizes_like_upsert_witness:
  "faults empty_world = []
   \<and> (\<exists>w1 w2. upsert_triplet entity_driver ''x'' ''has parent'' ''y'' empty_world = (Inr (), w1)
           \<and> delete entity_driver ''x'' ''has parent'' ''y'' w1 = (Inr (), w2)
           \<and> sent w1 = [Merge_triplet ''Entity'' ''Entity'' ''HAS_PARENT'' ''x'' ''y'']
           \<and> sent w2 = sent w1 @ [Delete_rel ''Entity'' ''HAS_PARENT'' ''x'' ''y'',
                                   Count_edges ''Entity'' ''x'', Count_edges ''Entity'' ''y'']
           \<and> gedges (store w2) = [])"
  using delete_normalizes_like_upsert [of empty_world entity_driver "''x''" "''has parent''" "''y''"]
  by (simp add: empty_world_def entity_driver_def empty_graph_def
        str_upper_def str_replace_def char_upper_def)

end
